theory Spec2Isabelle
  imports Complex_Main "HOL-Library.Word"
begin

unbundle bit_operations_syntax

section \<open>The platform: typed arrays and audio buffers\<close>

text \<open>
  The decoder of \<^verbatim>\<open>services/gemini\<close> is written against two platform interfaces:
  the typed arrays of ECMAScript and the \<^verbatim>\<open>AudioContext\<close> of the Web Audio API.
  Both are modelled as far as the decoder uses them, with every exception they raise as
  an error value.
\<close>

type_synonym uint8 = "8 word"
type_synonym int16 = "16 word"

text \<open>
  A typed-array view reads its elements in the byte order of the machine it runs on
  (the \<^verbatim>\<open>LittleEndian\<close> field of the agent record in ECMAScript), so the byte
  order of the host is an input of every function that builds such a view.
\<close>

datatype endianness = LittleEndian | BigEndian

datatype error =
    RangeError
  | NotSupportedError
  | IndexSizeError
  | InvalidCharacterError
  | TypeError
  | SyntaxError
  | Error string

text \<open>
  A JavaScript number as the decoder meets it: a finite value, or \<^verbatim>\<open>NaN\<close> (what
  \<^verbatim>\<open>undefined / 32768.0\<close> evaluates to). A 16-bit integer divided by \<open>2 ^ 15\<close> has
  at most 16 significant bits, so the quotient is exact both as a double and as the
  single-precision cell of a \<^verbatim>\<open>Float32Array\<close>; finite values are therefore reals.
\<close>

datatype number = Num real | NaN

text \<open>
  \<^verbatim>\<open>new Int16Array(buffer)\<close>: a \<^verbatim>\<open>RangeError\<close> when the byte length of the buffer
  is not a multiple of 2, otherwise one element for each pair of bytes, in host order.
\<close>

definition int16FromBytes :: "endianness \<Rightarrow> uint8 \<Rightarrow> uint8 \<Rightarrow> int16" where
  "int16FromBytes host b0 b1 =
     (case host of
        LittleEndian \<Rightarrow> push_bit 8 (ucast b1) OR ucast b0
      | BigEndian \<Rightarrow> push_bit 8 (ucast b0) OR ucast b1)"

fun int16Elements :: "endianness \<Rightarrow> uint8 list \<Rightarrow> int16 list" where
  "int16Elements host (b0 # b1 # bs) = int16FromBytes host b0 b1 # int16Elements host bs"
| "int16Elements host bs = []"

definition Int16Array :: "endianness \<Rightarrow> uint8 list \<Rightarrow> error + int16 list" where
  "Int16Array host buffer =
     (if length buffer mod 2 \<noteq> 0 then Inl RangeError
      else Inr (int16Elements host buffer))"

text \<open>
  \<^verbatim>\<open>dataInt16[k] / 32768.0\<close>: an index past the end of a typed array reads
  \<^verbatim>\<open>undefined\<close>, and the division then gives \<^verbatim>\<open>NaN\<close>.
\<close>

definition sampleAt :: "int16 list \<Rightarrow> nat \<Rightarrow> number" where
  "sampleAt dataInt16 k =
     (if k < length dataInt16 then Num (real_of_int (sint (dataInt16 ! k)) / 32768.0)
      else NaN)"

record AudioBuffer =
  numberOfChannels :: nat
  bufferLength :: nat
  sampleRate :: nat
  channels :: "number list list"

text \<open>
  An \<^verbatim>\<open>AudioContext\<close>, reduced to the limits its \<^verbatim>\<open>createBuffer\<close> enforces. The
  Web Audio API leaves them to the implementation (at least 32 channels, at least the
  rates from 8000 to 96000 Hz); supported rates are integers below \<open>2 ^ 24\<close>, which the
  \<^verbatim>\<open>float\<close> parameter of \<^verbatim>\<open>createBuffer\<close> holds exactly.
\<close>

record AudioContext =
  maxChannels :: nat
  minSampleRate :: nat
  maxSampleRate :: nat

text \<open>
  The conversion of a non-negative number to the \<^verbatim>\<open>unsigned long\<close> of Web IDL: the
  fraction is dropped and the result taken modulo \<open>2 ^ 32\<close>.
\<close>

definition toUnsignedLong :: "real \<Rightarrow> nat" where
  "toUnsignedLong x = nat \<lfloor>x\<rfloor> mod 2 ^ 32"

text \<open>
  \<^verbatim>\<open>ctx.createBuffer(numberOfChannels, length, sampleRate)\<close>: a
  \<^verbatim>\<open>NotSupportedError\<close> when an argument is zero or outside its nominal range,
  otherwise a buffer of silent channels.
\<close>

definition createBuffer :: "AudioContext \<Rightarrow> nat \<Rightarrow> real \<Rightarrow> nat \<Rightarrow> error + AudioBuffer" where
  "createBuffer ctx numChannels len rate =
     (let n = numChannels mod 2 ^ 32; l = toUnsignedLong len in
      if n = 0 \<or> maxChannels ctx < n \<or> l = 0
         \<or> rate < minSampleRate ctx \<or> maxSampleRate ctx < rate
      then Inl NotSupportedError
      else Inr \<lparr>numberOfChannels = n, bufferLength = l, sampleRate = rate,
                channels = replicate n (replicate l (Num 0))\<rparr>)"

text \<open>
  The calls that stay within the nominal ranges of \<^verbatim>\<open>createBuffer\<close>: a channel
  count from 1 to the maximum of the context, at least one frame, both counts within
  \<^verbatim>\<open>unsigned long\<close>, and a sample rate the context supports.
\<close>

definition supports :: "AudioContext \<Rightarrow> nat \<Rightarrow> nat \<Rightarrow> nat \<Rightarrow> bool" where
  "supports ctx numChannels frames rate \<longleftrightarrow>
     0 < numChannels \<and> numChannels \<le> maxChannels ctx \<and> numChannels < 2 ^ 32
     \<and> 0 < frames \<and> frames < 2 ^ 32
     \<and> minSampleRate ctx \<le> rate \<and> rate \<le> maxSampleRate ctx"

section \<open>The PCM decoder\<close>

text \<open>
  The inner loop of \<^verbatim>\<open>decodeAudioData\<close>:
  \<^verbatim>\<open>for (let i = 0; i < frameCount; i++) channelData[i] = dataInt16[i * numChannels + channel] / 32768.0\<close>.
  \<^verbatim>\<open>frameCount\<close> is the quotient of a floating-point division and need not be an
  integer; a store past the end of a \<^verbatim>\<open>Float32Array\<close> is ignored, as a list update
  past the end is.
\<close>

function frameLoop :: "int16 list \<Rightarrow> nat \<Rightarrow> nat \<Rightarrow> real \<Rightarrow> nat \<Rightarrow> number list \<Rightarrow> number list" where
  "frameLoop dataInt16 numChannels channel frameCount i channelData =
     (if real i < frameCount
      then frameLoop dataInt16 numChannels channel frameCount (i + 1)
             (channelData[i := sampleAt dataInt16 (i * numChannels + channel)])
      else channelData)"
  by pat_completeness auto
termination
proof (relation "measure (\<lambda>(d, n, c, fc, i, cd). nat \<lceil>fc\<rceil> - i)")
  show "wf (measure (\<lambda>(d, n, c, fc, i, cd). nat \<lceil>fc\<rceil> - i))" by simp
next
  fix dataInt16 :: "int16 list" and numChannels channel i :: nat
    and frameCount :: real and channelData :: "number list"
  assume "real i < frameCount"
  then have "i < nat \<lceil>frameCount\<rceil>" by linarith
  then show "((dataInt16, numChannels, channel, frameCount, i + 1,
                channelData[i := sampleAt dataInt16 (i * numChannels + channel)]),
              (dataInt16, numChannels, channel, frameCount, i, channelData))
             \<in> measure (\<lambda>(d, n, c, fc, i, cd). nat \<lceil>fc\<rceil> - i)"
    by simp
qed

declare frameLoop.simps [simp del]

text \<open>
  The outer loop, \<^verbatim>\<open>for (let channel = 0; channel < numChannels; channel++)\<close>.
  \<^verbatim>\<open>buffer.getChannelData(channel)\<close> raises an \<^verbatim>\<open>IndexSizeError\<close> for a channel
  the buffer does not have; the array it returns is the buffer's own storage, so the
  stores of the inner loop land in the buffer.
\<close>

function channelLoop :: "int16 list \<Rightarrow> nat \<Rightarrow> real \<Rightarrow> nat \<Rightarrow> AudioBuffer \<Rightarrow> error + AudioBuffer" where
  "channelLoop dataInt16 numChannels frameCount channel buffer =
     (if channel < numChannels
      then (if channel < numberOfChannels buffer
            then channelLoop dataInt16 numChannels frameCount (channel + 1)
                   (buffer\<lparr>channels := (channels buffer)
                      [channel := frameLoop dataInt16 numChannels channel frameCount 0
                                    (channels buffer ! channel)]\<rparr>)
            else Inl IndexSizeError)
      else Inr buffer)"
  by pat_completeness auto
termination
  by (relation "measure (\<lambda>(d, n, fc, c, b). n - c)") auto

declare channelLoop.simps [simp del]

text \<open>
  \<^verbatim>\<open>decodeAudioData(data, ctx, sampleRate, numChannels)\<close>. \<^verbatim>\<open>data\<close> is the
  \<^verbatim>\<open>Uint8Array\<close> that \<^verbatim>\<open>decode\<close> allocates, which spans its whole buffer, so
  \<^verbatim>\<open>data.buffer\<close> holds exactly the bytes of \<^verbatim>\<open>data\<close>. The division is that of
  JavaScript numbers; with \<^verbatim>\<open>numChannels = 0\<close> its result is infinite or
  \<^verbatim>\<open>NaN\<close>, and \<^verbatim>\<open>createBuffer\<close> rejects the call for its channel count whatever
  the length.
\<close>

definition decodeAudioData ::
    "endianness \<Rightarrow> uint8 list \<Rightarrow> AudioContext \<Rightarrow> nat \<Rightarrow> nat \<Rightarrow> error + AudioBuffer" where
  "decodeAudioData host data ctx rate numChannels =
     (case Int16Array host data of
        Inl e \<Rightarrow> Inl e
      | Inr dataInt16 \<Rightarrow>
          (let frameCount = real (length dataInt16) / real numChannels in
           case createBuffer ctx numChannels frameCount rate of
             Inl e \<Rightarrow> Inl e
           | Inr buffer \<Rightarrow> channelLoop dataInt16 numChannels frameCount 0 buffer))"

section \<open>The service module\<close>

text \<open>
  What the hosted model answers is outside the program. A response is reduced to the
  fields the service functions read: its text, and for each candidate the parts of its
  content with their inline data.
\<close>

record Blob =
  mimeType :: string
  data :: string

record Part =
  inlineData :: "Blob option"

record GenerateContentResponse =
  responseText :: "string option"
  candidates :: "Part list option list option"

record ChartDataPoint =
  label :: string
  pointValue :: real
  pointUnit :: "string option"

record LeapManifest =
  summary :: string
  chartTitle :: string
  chartData :: "ChartDataPoint list"
  imagePrompt :: string
  audioScript :: string
  colors :: "string list"

text \<open>
  The surroundings of one run of the program: the byte order of the host, the
  built-ins \<^verbatim>\<open>atob\<close> and \<^verbatim>\<open>JSON.parse\<close>, the constructor of the audio
  context, and the outcome of \<^verbatim>\<open>ai.models.generateContent\<close> for each of the three
  models, as a function of the one string the request is built from. A rejected promise
  or a thrown exception is an \<open>Inl\<close>.
\<close>

record World =
  host :: endianness
  atob :: "string \<Rightarrow> error + string"
  JSON_parse :: "string \<Rightarrow> error + LeapManifest"
  newAudioContext :: "error + AudioContext"
  textModel :: "string \<Rightarrow> error + GenerateContentResponse"
  imageModel :: "string \<Rightarrow> error + GenerateContentResponse"
  audioModel :: "string \<Rightarrow> error + GenerateContentResponse"

text \<open>
  \<^verbatim>\<open>decode(base64)\<close>: the binary string of \<^verbatim>\<open>atob\<close>, one byte for each of its
  characters (\<^verbatim>\<open>bytes[i] = binaryString.charCodeAt(i)\<close>).
\<close>

definition decode :: "World \<Rightarrow> string \<Rightarrow> error + uint8 list" where
  "decode w base64 =
     (case atob w base64 of
        Inl e \<Rightarrow> Inl e
      | Inr binaryString \<Rightarrow> Inr (map (\<lambda>c. word_of_nat (of_char c)) binaryString))"

text \<open>\<^verbatim>\<open>generateManifest(topic)\<close>: an empty or missing text is an error.\<close>

definition generateManifest :: "World \<Rightarrow> string \<Rightarrow> error + LeapManifest" where
  "generateManifest w topicText =
     (case textModel w topicText of
        Inl e \<Rightarrow> Inl e
      | Inr response \<Rightarrow>
          (case responseText response of
             None \<Rightarrow> Inl (Error ''No text returned from Gemini'')
           | Some txt \<Rightarrow>
               if txt = [] then Inl (Error ''No text returned from Gemini'')
               else JSON_parse w txt))"

fun startsWith :: "string \<Rightarrow> string \<Rightarrow> bool" where
  "startsWith s [] = True"
| "startsWith [] (c # t) = False"
| "startsWith (x # s) (c # t) = (x = c \<and> startsWith s t)"

text \<open>
  \<^verbatim>\<open>generateLeapImage(prompt)\<close>: the data of the first part, in the order of the
  candidates, whose inline data has an image type. A candidate without content parts
  makes the iteration raise a \<^verbatim>\<open>TypeError\<close>.
\<close>

fun findImagePart :: "Part list \<Rightarrow> string option" where
  "findImagePart [] = None"
| "findImagePart (part # parts) =
     (case inlineData part of
        Some blob \<Rightarrow>
          if startsWith (mimeType blob) ''image/'' then Some (data blob)
          else findImagePart parts
      | None \<Rightarrow> findImagePart parts)"

fun findImage :: "Part list option list \<Rightarrow> error + string" where
  "findImage [] = Inl (Error ''No image generated'')"
| "findImage (candidate # rest) =
     (case candidate of
        None \<Rightarrow> Inl TypeError
      | Some parts \<Rightarrow>
          (case findImagePart parts of
             Some d \<Rightarrow> Inr d
           | None \<Rightarrow> findImage rest))"

definition generateLeapImage :: "World \<Rightarrow> string \<Rightarrow> error + string" where
  "generateLeapImage w prompt =
     (case imageModel w prompt of
        Inl e \<Rightarrow> Inl e
      | Inr response \<Rightarrow>
          findImage (case candidates response of None \<Rightarrow> [] | Some cs \<Rightarrow> cs))"

text \<open>
  \<^verbatim>\<open>response.candidates?.[0]?.content?.parts?.[0]?.inlineData?.data\<close>: the optional
  chain gives \<^verbatim>\<open>undefined\<close> as soon as one link is missing.
\<close>

definition firstInlineData :: "GenerateContentResponse \<Rightarrow> string option" where
  "firstInlineData response =
     (case candidates response of
        Some (Some (part # parts) # rest) \<Rightarrow> map_option data (inlineData part)
      | _ \<Rightarrow> None)"

text \<open>
  A call of the decoder, with the arguments it was given: the bytes, the sample rate
  and the channel count.
\<close>

datatype decoderCall =
  DecoderCall (callData: "uint8 list") (callSampleRate: nat) (callChannels: nat)

text \<open>
  \<^verbatim>\<open>generateLeapAudio(script, audioContext)\<close>, run to completion: what it returns or
  throws, and the calls of \<^verbatim>\<open>decodeAudioData\<close> it made. The function reaches the
  decoder in its last statement only, after the response was found to hold audio and
  \<^verbatim>\<open>decode\<close> returned its bytes; every earlier exit makes no call.
\<close>

definition generateLeapAudioRun ::
    "World \<Rightarrow> string \<Rightarrow> AudioContext \<Rightarrow> (error + AudioBuffer) \<times> decoderCall list" where
  "generateLeapAudioRun w script audioContext =
     (case audioModel w script of
        Inl e \<Rightarrow> (Inl e, [])
      | Inr response \<Rightarrow>
          (case firstInlineData response of
             None \<Rightarrow> (Inl (Error ''No audio generated''), [])
           | Some base64Audio \<Rightarrow>
               if base64Audio = [] then (Inl (Error ''No audio generated''), [])
               else (case decode w base64Audio of
                       Inl e \<Rightarrow> (Inl e, [])
                     | Inr bytes \<Rightarrow>
                         (decodeAudioData (host w) bytes audioContext 24000 1,
                          [DecoderCall bytes 24000 1]))))"

text \<open>The result of \<^verbatim>\<open>generateLeapAudio\<close> alone, as its caller awaits it.\<close>

definition generateLeapAudio :: "World \<Rightarrow> string \<Rightarrow> AudioContext \<Rightarrow> error + AudioBuffer" where
  "generateLeapAudio w script audioContext = fst (generateLeapAudioRun w script audioContext)"

section \<open>The application\<close>

text \<open>
  Topic strings are lists of 8-bit characters, read as the code units U+0000 to U+00FF.
  On these, \<^verbatim>\<open>trim\<close> strips the white space and line terminators of ECMAScript
  (U+0009 to U+000D, U+0020, U+00A0) from both ends, and \<^verbatim>\<open>toLowerCase\<close> maps the
  capital letters (U+0041 to U+005A, and U+00C0 to U+00DE without U+00D7) 32 places up.
\<close>

definition isWhiteSpace :: "char \<Rightarrow> bool" where
  "isWhiteSpace c = (let n = (of_char c :: nat) in (9 \<le> n \<and> n \<le> 13) \<or> n = 32 \<or> n = 160)"

definition trim :: "string \<Rightarrow> string" where
  "trim s = rev (dropWhile isWhiteSpace (rev (dropWhile isWhiteSpace s)))"

definition toLowerCaseChar :: "char \<Rightarrow> char" where
  "toLowerCaseChar c =
     (let n = (of_char c :: nat) in
      if (65 \<le> n \<and> n \<le> 90) \<or> (192 \<le> n \<and> n \<le> 222 \<and> n \<noteq> 215)
      then char_of (n + 32) else c)"

definition toLowerCase :: "string \<Rightarrow> string" where
  "toLowerCase s = map toLowerCaseChar s"

text \<open>\<^verbatim>\<open>s.includes(t)\<close>: \<open>t\<close> occurs in \<open>s\<close> as a contiguous run.\<close>

fun stringIncludes :: "string \<Rightarrow> string \<Rightarrow> bool" where
  "stringIncludes [] t = (t = [])"
| "stringIncludes (c # s) t = (startsWith (c # s) t \<or> stringIncludes s t)"

datatype Status = Idle | Analyzing | GeneratingMedia | Complete | ErrorStatus

record LeapState =
  status :: Status
  manifest :: "LeapManifest option"
  imageData :: "string option"
  audioBuffer :: "AudioBuffer option"
  error :: "string option"

text \<open>The three pieces of state of the \<^verbatim>\<open>App\<close> component.\<close>

record App =
  topic :: string
  showGate :: bool
  state :: LeapState

datatype call =
    CallGenerateManifest string
  | CallGenerateLeapImage string
  | CallGenerateLeapAudio string

datatype 'a settled = Fulfilled 'a | Rejected error

definition allSettled :: "error + 'a \<Rightarrow> 'a settled" where
  "allSettled r = (case r of Inl e \<Rightarrow> Rejected e | Inr v \<Rightarrow> Fulfilled v)"

text \<open>
  The \<^verbatim>\<open>catch\<close> block of \<^verbatim>\<open>handleLeap\<close>: the state updater keeps every field of
  the previous state but the status and the error message.
\<close>

definition catchBlock :: "App \<Rightarrow> App" where
  "catchBlock app =
     app\<lparr>state := (state app)\<lparr>status := ErrorStatus,
       error := Some ''CRITICAL FAILURE: Unable to bridge the quantum gap. Try a different topic.''\<rparr>\<rparr>"

text \<open>
  \<^verbatim>\<open>handleLeap\<close>, run to completion from the component state \<open>app\<close>: the state it
  leaves and the calls it made to the service module, in order. Both media tasks are
  started before either is awaited, so both calls are made whenever the audio context
  could be built.
\<close>

definition handleLeap :: "World \<Rightarrow> App \<Rightarrow> App \<times> call list" where
  "handleLeap w app =
     (if trim (topic app) = [] then (app, [])
      else if stringIncludes (toLowerCase (topic app)) ''aether''
              \<or> stringIncludes (toLowerCase (topic app)) ''event''
      then (app\<lparr>showGate := True, topic := []\<rparr>, [])
      else
        (let app1 = app\<lparr>state := \<lparr>status = Analyzing, manifest = None, imageData = None,
                                     audioBuffer = None, error = None\<rparr>\<rparr>
         in case generateManifest w (topic app) of
              Inl e \<Rightarrow> (catchBlock app1, [CallGenerateManifest (topic app)])
            | Inr m \<Rightarrow>
                (let app2 = app1\<lparr>state := (state app1)\<lparr>status := GeneratingMedia,
                                                          manifest := Some m\<rparr>\<rparr>
                 in case newAudioContext w of
                      Inl e \<Rightarrow> (catchBlock app2, [CallGenerateManifest (topic app)])
                    | Inr audioCtx \<Rightarrow>
                        (let imgData = allSettled (generateLeapImage w (imagePrompt m));
                             audioBuf = allSettled (generateLeapAudio w (audioScript m) audioCtx)
                         in (app2\<lparr>state := (state app2)
                               \<lparr>status := Complete,
                                imageData := (case imgData of Fulfilled v \<Rightarrow> Some v
                                              | Rejected e \<Rightarrow> None),
                                audioBuffer := (case audioBuf of Fulfilled v \<Rightarrow> Some v
                                                | Rejected e \<Rightarrow> None),
                                error := (if (case imgData of Rejected e \<Rightarrow> True | _ \<Rightarrow> False)
                                             \<or> (case audioBuf of Rejected e \<Rightarrow> True | _ \<Rightarrow> False)
                                          then Some ''Partial system failure. Some media elements could not be synthesized.''
                                          else None)\<rparr>\<rparr>,
                             [CallGenerateManifest (topic app),
                              CallGenerateLeapImage (imagePrompt m),
                              CallGenerateLeapAudio (audioScript m)])))))"



section \<open>A sample world\<close>

text \<open>
  One world for the examples below: a little-endian host, a text model whose answer
  parses to a manifest, an image model that fails, and an audio model that answers the
  script of that manifest without audio and any other script with the base64 text of
  the two bytes \<open>00 40\<close>.
\<close>

definition demoManifest :: LeapManifest where
  "demoManifest = \<lparr>summary = ''A city.'', chartTitle = ''Population'',
     chartData = [\<lparr>label = ''Tokyo'', pointValue = 37, pointUnit = Some ''M''\<rparr>],
     imagePrompt = ''skyline'', audioScript = ''Did you know?'', colors = [''#00ffff'', ''#8000ff'']\<rparr>"

definition demoWorld :: World where
  "demoWorld = \<lparr>host = LittleEndian,
     atob = (\<lambda>s. if s = ''AEA='' then Inr [CHR 0x00, CHR 0x40] else Inl InvalidCharacterError),
     JSON_parse = (\<lambda>s. if s = ''{}'' then Inr demoManifest else Inl SyntaxError),
     newAudioContext = Inr \<lparr>maxChannels = 32, minSampleRate = 8000, maxSampleRate = 96000\<rparr>,
     textModel = (\<lambda>s. Inr \<lparr>responseText = Some ''{}'', candidates = None\<rparr>),
     imageModel = (\<lambda>s. Inl (Error ''quota'')),
     audioModel = (\<lambda>s. if s = ''Did you know?''
        then Inr \<lparr>responseText = None, candidates = Some []\<rparr>
        else Inr \<lparr>responseText = None,
               candidates = Some [Some [\<lparr>inlineData = Some \<lparr>mimeType = ''audio/pcm'', data = ''AEA=''\<rparr>\<rparr>]]\<rparr>)\<rparr>"

section \<open>The encoder of the round trip\<close>

text \<open>
  Modelled from the spec: the repository has no PCM encoder. The round trip of the
  spec encodes a float sample by "the inverse of the normalization": the sample is
  multiplied by 32768 and quantized to an integer, here the largest integer not above
  the product, which for a sample in \<open>[-1, 1)\<close> is a signed 16-bit value.
\<close>

definition encodeSample :: "real \<Rightarrow> int16" where
  "encodeSample f = word_of_int \<lfloor>f * 32768\<rfloor>"

section \<open>Typed arrays: length, elements and signed values\<close>

lemma uint_int16FromBytes_LittleEndian:
  "uint (int16FromBytes LittleEndian b0 b1) = uint b0 + 256 * uint b1"
proof -
  have "uint (push_bit 8 (ucast b1) OR ucast b0 :: int16) = concat_bit 8 (uint b0) (uint b1)"
    by (rule bit_eqI) (auto simp: bit_simps dest: bit_imp_le_length)
  also have "\<dots> = take_bit 8 (uint b0) + push_bit 8 (uint b1)"
    by (rule concat_bit_eq)
  also have "take_bit 8 (uint b0) = uint b0"
    using take_bit_int_eq_self [of "uint b0" 8] uint_bounded [of b0] by simp
  finally show ?thesis
    by (simp add: int16FromBytes_def push_bit_eq_mult)
qed

lemma signed_take_bit_int_cases:
  fixes k :: int
  assumes "0 \<le> k" "k < 2 * 2 ^ n"
  shows "signed_take_bit n k = (if k < 2 ^ n then k else k - 2 * 2 ^ n)"
proof (cases "k < 2 ^ n")
  case True
  with assms have "signed_take_bit n k = k"
    by (intro signed_take_bit_int_eq_self) simp_all
  with True show ?thesis by simp
next
  case False
  have "signed_take_bit n k = signed_take_bit n (k - 2 * 2 ^ n)"
    by (simp add: signed_take_bit_eq_iff_take_bit_eq take_bit_eq_mod)
  also from False assms have "\<dots> = k - 2 * 2 ^ n"
    by (intro signed_take_bit_int_eq_self) simp_all
  finally show ?thesis using False by simp
qed

lemma sint_eq_uint_int16: "sint (w :: int16) = (if uint w < 32768 then uint w else uint w - 65536)"
  using signed_take_bit_int_cases [of "uint w" 15] uint_bounded [of w]
  by (simp add: sint_uint)

lemma sint_eq_uint_uint8: "sint (w :: uint8) = (if uint w < 128 then uint w else uint w - 256)"
  using signed_take_bit_int_cases [of "uint w" 7] uint_bounded [of w]
  by (simp add: sint_uint)

lemma int16_value_arith:
  fixes a b :: int
  assumes "0 \<le> a" "a < 256" "0 \<le> b" "b < 256"
  shows "(if a + 256 * b < 32768 then a + 256 * b else a + 256 * b - 65536) =
         a + 256 * (if b < 128 then b else b - 256)"
  using assms by auto

lemma sint_int16FromBytes_LittleEndian:
  "sint (int16FromBytes LittleEndian b0 b1) = uint b0 + 256 * sint b1"
  unfolding sint_eq_uint_int16 sint_eq_uint_uint8 uint_int16FromBytes_LittleEndian
  using uint_bounded [of b0] uint_bounded [of b1]
  by (intro int16_value_arith) simp_all


lemma length_int16Elements: "length (int16Elements h bs) = length bs div 2"
  by (induction h bs rule: int16Elements.induct) simp_all

lemma nth_int16Elements:
  "k < length bs div 2 \<Longrightarrow>
   int16Elements h bs ! k = int16FromBytes h (bs ! (2 * k)) (bs ! (2 * k + 1))"
proof (induction h bs arbitrary: k rule: int16Elements.induct)
  case (1 h b0 b1 bs)
  then show ?case by (cases k) simp_all
qed simp_all

lemma sint_int16_range: "- 32768 \<le> sint (s :: int16) \<and> sint s < 32768"
  using sint_ge [of s] sint_lt [of s] by simp

section \<open>The loops of the decoder\<close>

text \<open>
  The inner loop changes no length, and leaves at position \<open>j\<close> the sample
  \<open>j * numChannels + channel\<close> when its counter reaches \<open>j\<close>, the old value
  otherwise.
\<close>

lemma length_frameLoop:
  "length (frameLoop dataInt16 numChannels channel frameCount i channelData) = length channelData"
proof (induction dataInt16 numChannels channel frameCount i channelData rule: frameLoop.induct)
  case (1 dataInt16 numChannels channel frameCount i channelData)
  then show ?case by (subst frameLoop.simps) simp
qed

lemma nth_frameLoop:
  "j < length channelData \<Longrightarrow>
   frameLoop dataInt16 numChannels channel frameCount i channelData ! j =
     (if i \<le> j \<and> real j < frameCount then sampleAt dataInt16 (j * numChannels + channel)
      else channelData ! j)"
proof (induction dataInt16 numChannels channel frameCount i channelData rule: frameLoop.induct)
  case (1 dataInt16 numChannels channel frameCount i channelData)
  show ?case
  proof (cases "real i < frameCount")
    case True
    show ?thesis
    proof (cases "j = i")
      case True
      with \<open>real i < frameCount\<close> 1 show ?thesis
        by (subst frameLoop.simps) simp
    next
      case False
      then have "i \<le> j \<longleftrightarrow> i + 1 \<le> j" by auto
      with False \<open>real i < frameCount\<close> 1 show ?thesis
        by (subst frameLoop.simps) simp
    qed
  next
    case False
    then show ?thesis
      by (subst frameLoop.simps) auto
  qed
qed

lemma frame_index_in_range:
  fixes j c n L :: nat
  assumes "j < L div n" "c < n"
  shows "j * n + c < L"
proof -
  from assms have "j * n + c < Suc j * n" by simp
  also from assms have "\<dots> \<le> (L div n) * n" by (intro mult_le_mono1) simp
  also have "\<dots> \<le> L" by simp
  finally show ?thesis .
qed

lemma frame_before_frameCount:
  fixes j n L :: nat
  assumes "j < L div n" "0 < n"
  shows "real j < real L / real n"
proof -
  from frame_index_in_range [OF assms(1), of 0] assms(2) have "j * n < L" by simp
  then have "real j * real n < real L"
    by (metis of_nat_less_iff of_nat_mult)
  with assms(2) show ?thesis by (simp add: pos_less_divide_eq)
qed

lemma toUnsignedLong_frameCount:
  "toUnsignedLong (real L / real n) = (L div n) mod 2 ^ 32"
  by (simp add: toUnsignedLong_def floor_divide_of_nat_eq)

text \<open>
  Run on a silent channel of at most \<open>\<lfloor>length / numChannels\<rfloor>\<close> frames, the inner
  loop reads inside the samples only and fills the whole channel.
\<close>

lemma frameLoop_silence:
  assumes "l \<le> length dataInt16 div n" "c < n"
  shows "frameLoop dataInt16 n c (real (length dataInt16) / real n) 0 (replicate l (Num 0)) =
         map (\<lambda>i. Num (real_of_int (sint (dataInt16 ! (i * n + c))) / 32768)) [0..<l]"
proof (rule nth_equalityI)
  show "length (frameLoop dataInt16 n c (real (length dataInt16) / real n) 0 (replicate l (Num 0))) =
        length (map (\<lambda>i. Num (real_of_int (sint (dataInt16 ! (i * n + c))) / 32768)) [0..<l])"
    by (simp add: length_frameLoop)
next
  fix j
  assume "j < length (frameLoop dataInt16 n c (real (length dataInt16) / real n) 0 (replicate l (Num 0)))"
  then have j: "j < l" by (simp add: length_frameLoop)
  with assms have jF: "j < length dataInt16 div n" by simp
  from assms have n: "0 < n" by simp
  have "real j < real (length dataInt16) / real n"
    by (rule frame_before_frameCount [OF jF n])
  moreover have "j * n + c < length dataInt16"
    by (rule frame_index_in_range [OF jF assms(2)])
  ultimately show "frameLoop dataInt16 n c (real (length dataInt16) / real n) 0 (replicate l (Num 0)) ! j =
      map (\<lambda>i. Num (real_of_int (sint (dataInt16 ! (i * n + c))) / 32768)) [0..<l] ! j"
    using j by (simp add: nth_frameLoop sampleAt_def)
qed

lemma channelLoop_Inr:
  assumes "numChannels = numberOfChannels buffer"
    and "length (channels buffer) = numberOfChannels buffer"
  shows "channelLoop dataInt16 numChannels frameCount channel buffer =
         Inr (buffer\<lparr>channels :=
                map (\<lambda>k. if channel \<le> k
                          then frameLoop dataInt16 numChannels k frameCount 0 (channels buffer ! k)
                          else channels buffer ! k)
                    [0..<length (channels buffer)]\<rparr>)"
  using assms
proof (induction dataInt16 numChannels frameCount channel buffer rule: channelLoop.induct)
  case (1 dataInt16 numChannels frameCount channel buffer)
  show ?case
  proof (cases "channel < numChannels")
    case False
    with 1(2,3) have "map (\<lambda>k. if channel \<le> k
                          then frameLoop dataInt16 numChannels k frameCount 0 (channels buffer ! k)
                          else channels buffer ! k)
                    [0..<length (channels buffer)] = channels buffer"
      by (intro nth_equalityI) simp_all
    with False show ?thesis
      by (subst channelLoop.simps) simp
  next
    case True
    let ?b = "buffer\<lparr>channels := (channels buffer)
                [channel := frameLoop dataInt16 numChannels channel frameCount 0
                              (channels buffer ! channel)]\<rparr>"
    from True 1(2) have lt: "channel < numberOfChannels buffer" by simp
    have "channelLoop dataInt16 numChannels frameCount channel buffer =
          channelLoop dataInt16 numChannels frameCount (channel + 1) ?b"
      using True lt by (subst channelLoop.simps) simp
    also have "\<dots> = Inr (?b\<lparr>channels :=
                map (\<lambda>k. if channel + 1 \<le> k
                          then frameLoop dataInt16 numChannels k frameCount 0 (channels ?b ! k)
                          else channels ?b ! k)
                    [0..<length (channels ?b)]\<rparr>)"
      using True lt 1(2,3) by (intro 1(1)) simp_all
    also have "map (\<lambda>k. if channel + 1 \<le> k
                          then frameLoop dataInt16 numChannels k frameCount 0 (channels ?b ! k)
                          else channels ?b ! k)
                    [0..<length (channels ?b)] =
               map (\<lambda>k. if channel \<le> k
                          then frameLoop dataInt16 numChannels k frameCount 0 (channels buffer ! k)
                          else channels buffer ! k)
                    [0..<length (channels buffer)]"
    proof (rule nth_equalityI)
      fix k
      assume "k < length (map (\<lambda>k. if channel + 1 \<le> k
                          then frameLoop dataInt16 numChannels k frameCount 0 (channels ?b ! k)
                          else channels ?b ! k)
                    [0..<length (channels ?b)])"
      then have k: "k < length (channels buffer)" by simp
      show "map (\<lambda>k. if channel + 1 \<le> k
                          then frameLoop dataInt16 numChannels k frameCount 0 (channels ?b ! k)
                          else channels ?b ! k)
                    [0..<length (channels ?b)] ! k =
               map (\<lambda>k. if channel \<le> k
                          then frameLoop dataInt16 numChannels k frameCount 0 (channels buffer ! k)
                          else channels buffer ! k)
                    [0..<length (channels buffer)] ! k"
      proof (cases "k = channel")
        case True
        with k show ?thesis by simp
      next
        case False
        then have "channel \<le> k \<longleftrightarrow> channel + 1 \<le> k" by auto
        with False k show ?thesis by simp
      qed
    qed simp
    finally show ?thesis by simp
  qed
qed

lemma channelLoop_IndexSizeError:
  assumes "numberOfChannels buffer < numChannels" "channel \<le> numberOfChannels buffer"
  shows "channelLoop dataInt16 numChannels frameCount channel buffer = Inl IndexSizeError"
  using assms
proof (induction dataInt16 numChannels frameCount channel buffer rule: channelLoop.induct)
  case (1 dataInt16 numChannels frameCount channel buffer)
  show ?case
  proof (cases "channel < numberOfChannels buffer")
    case True
    with 1 show ?thesis by (subst channelLoop.simps) simp
  next
    case False
    with 1(2,3) show ?thesis by (subst channelLoop.simps) simp
  qed
qed


section \<open>The decoder as a function of its input\<close>

text \<open>
  The decoder returns a buffer exactly when the byte length is even and
  \<^verbatim>\<open>createBuffer\<close> takes the call, and the buffer is then determined: channel \<open>c\<close>
  holds the samples \<open>c\<close>, \<open>numChannels + c\<close>, \<open>2 * numChannels + c\<close>, ..., each
  divided by 32768.
\<close>

lemma decodeAudioData_accepted:
  assumes len: "even (length bytes)"
    and n: "0 < n" "n < 2 ^ 32" "n \<le> maxChannels ctx"
    and frames: "0 < (length bytes div 2 div n) mod 2 ^ 32"
    and rate: "minSampleRate ctx \<le> rate" "rate \<le> maxSampleRate ctx"
  shows "decodeAudioData h bytes ctx rate n =
         Inr \<lparr>numberOfChannels = n,
              bufferLength = (length bytes div 2 div n) mod 2 ^ 32,
              sampleRate = rate,
              channels = map (\<lambda>c. map (\<lambda>i. Num (real_of_int (sint (int16Elements h bytes ! (i * n + c))) / 32768))
                                      [0..<(length bytes div 2 div n) mod 2 ^ 32])
                             [0..<n]\<rparr>"
proof -
  let ?d = "int16Elements h bytes"
  let ?l = "(length bytes div 2 div n) mod 2 ^ 32"
  let ?fc = "real (length ?d) / real n"
  let ?b = "\<lparr>numberOfChannels = n, bufferLength = ?l, sampleRate = rate,
             channels = replicate n (replicate ?l (Num 0))\<rparr>"
  have arr: "Int16Array h bytes = Inr ?d"
    using len by (simp add: Int16Array_def)
  have l: "toUnsignedLong ?fc = ?l"
    by (simp add: toUnsignedLong_frameCount length_int16Elements)
  have cb: "createBuffer ctx n ?fc rate = Inr ?b"
    using n frames rate unfolding createBuffer_def l by (simp add: Let_def)
  have "channelLoop ?d n ?fc 0 ?b =
        Inr (?b\<lparr>channels := map (\<lambda>k. if 0 \<le> k then frameLoop ?d n k ?fc 0 (channels ?b ! k)
                                         else channels ?b ! k) [0..<length (channels ?b)]\<rparr>)"
    by (rule channelLoop_Inr) simp_all
  also have "map (\<lambda>k. if 0 \<le> k then frameLoop ?d n k ?fc 0 (channels ?b ! k)
                       else channels ?b ! k) [0..<length (channels ?b)] =
             map (\<lambda>c. map (\<lambda>i. Num (real_of_int (sint (?d ! (i * n + c))) / 32768)) [0..<?l]) [0..<n]"
  proof (rule nth_equalityI)
    fix c
    assume "c < length (map (\<lambda>k. if 0 \<le> k then frameLoop ?d n k ?fc 0 (channels ?b ! k)
                       else channels ?b ! k) [0..<length (channels ?b)])"
    then have c: "c < n" by simp
    have "?l \<le> length ?d div n"
      by (simp add: length_int16Elements)
    from frameLoop_silence [OF this c] c
    show "map (\<lambda>k. if 0 \<le> k then frameLoop ?d n k ?fc 0 (channels ?b ! k)
                       else channels ?b ! k) [0..<length (channels ?b)] ! c =
          map (\<lambda>c. map (\<lambda>i. Num (real_of_int (sint (?d ! (i * n + c))) / 32768)) [0..<?l]) [0..<n] ! c"
      by simp
  qed simp
  finally have "channelLoop ?d n ?fc 0 ?b =
      Inr \<lparr>numberOfChannels = n, bufferLength = ?l, sampleRate = rate,
           channels = map (\<lambda>c. map (\<lambda>i. Num (real_of_int (sint (?d ! (i * n + c))) / 32768)) [0..<?l]) [0..<n]\<rparr>"
    by simp
  with arr cb show ?thesis
    by (simp add: decodeAudioData_def Let_def)
qed

lemma decodeAudioData_rejected:
  assumes "\<not> (even (length bytes) \<and> 0 < n \<and> n < 2 ^ 32 \<and> n \<le> maxChannels ctx
             \<and> 0 < (length bytes div 2 div n) mod 2 ^ 32
             \<and> minSampleRate ctx \<le> rate \<and> rate \<le> maxSampleRate ctx)"
  shows "\<exists>e. decodeAudioData h bytes ctx rate n = Inl e"
proof (cases "even (length bytes)")
  case False
  then show ?thesis by (simp add: decodeAudioData_def Int16Array_def even_iff_mod_2_eq_zero)
next
  case True
  let ?d = "int16Elements h bytes"
  let ?fc = "real (length ?d) / real n"
  have arr: "Int16Array h bytes = Inr ?d"
    using True by (simp add: Int16Array_def)
  have l: "toUnsignedLong ?fc = (length bytes div 2 div n) mod 2 ^ 32"
    by (simp add: toUnsignedLong_frameCount length_int16Elements)
  show ?thesis
  proof (cases "createBuffer ctx n ?fc rate")
    case (Inl e)
    with arr show ?thesis by (simp add: decodeAudioData_def Let_def)
  next
    case (Inr b)
    then have acc: "n mod 2 ^ 32 \<noteq> 0" "n mod 2 ^ 32 \<le> maxChannels ctx"
        "0 < (length bytes div 2 div n) mod 2 ^ 32"
        "minSampleRate ctx \<le> rate" "rate \<le> maxSampleRate ctx"
      and b: "numberOfChannels b = n mod 2 ^ 32"
      unfolding createBuffer_def l by (auto simp: Let_def split: if_splits)
    have big: "2 ^ 32 \<le> n"
    proof (rule ccontr)
      assume "\<not> 2 ^ 32 \<le> n"
      then have "n < 2 ^ 32" by simp
      with acc True assms show False by simp
    qed
    then have "n mod 2 ^ 32 < n"
      by (meson mod_less_divisor less_le_trans zero_less_numeral zero_less_power)
    with b have "channelLoop ?d n ?fc 0 b = Inl IndexSizeError"
      by (intro channelLoop_IndexSizeError) simp_all
    with arr Inr show ?thesis by (simp add: decodeAudioData_def Let_def)
  qed
qed

lemma decodeAudioData_Inr_iff:
  "decodeAudioData h bytes ctx rate n = Inr buf \<longleftrightarrow>
     even (length bytes) \<and> 0 < n \<and> n < 2 ^ 32 \<and> n \<le> maxChannels ctx
     \<and> 0 < (length bytes div 2 div n) mod 2 ^ 32
     \<and> minSampleRate ctx \<le> rate \<and> rate \<le> maxSampleRate ctx
     \<and> buf = \<lparr>numberOfChannels = n,
              bufferLength = (length bytes div 2 div n) mod 2 ^ 32,
              sampleRate = rate,
              channels = map (\<lambda>c. map (\<lambda>i. Num (real_of_int (sint (int16Elements h bytes ! (i * n + c))) / 32768))
                                      [0..<(length bytes div 2 div n) mod 2 ^ 32])
                             [0..<n]\<rparr>"
  using decodeAudioData_accepted [of bytes n ctx rate h]
    decodeAudioData_rejected [of bytes n ctx rate h]
  by (cases "even (length bytes) \<and> 0 < n \<and> n < 2 ^ 32 \<and> n \<le> maxChannels ctx
             \<and> 0 < (length bytes div 2 div n) mod 2 ^ 32
             \<and> minSampleRate ctx \<le> rate \<and> rate \<le> maxSampleRate ctx") auto


lemma decodeAudioData_supported:
  assumes "even (length bytes)"
    and "supports ctx n (length bytes div 2 div n) rate"
  shows "decodeAudioData h bytes ctx rate n =
         Inr \<lparr>numberOfChannels = n,
              bufferLength = length bytes div 2 div n,
              sampleRate = rate,
              channels = map (\<lambda>c. map (\<lambda>i. Num (real_of_int (sint (int16Elements h bytes ! (i * n + c))) / 32768))
                                      [0..<length bytes div 2 div n])
                             [0..<n]\<rparr>"
proof -
  from assms(2) have "(length bytes div 2 div n) mod 2 ^ 32 = length bytes div 2 div n"
    by (simp add: supports_def)
  with assms decodeAudioData_accepted [of bytes n ctx rate h] show ?thesis
    by (simp add: supports_def)
qed

lemma int16FromBytes_BigEndian:
  "int16FromBytes BigEndian b0 b1 = int16FromBytes LittleEndian b1 b0"
  by (simp add: int16FromBytes_def)

lemma sint_word_of_int_int16:
  assumes "- 32768 \<le> k" "k < 32768"
  shows "sint (word_of_int k :: int16) = k"
  using assms by (simp add: sint_sbintrunc' signed_take_bit_int_eq_self)

lemma decode_quantised_sample:
  assumes "- 32768 \<le> q" and "q < 32768"
    and "\<bar>real_of_int q - f * 32768\<bar> \<le> 1"
    and "Int16Array h bytes = Inr [word_of_int q]"
    and "supports ctx 1 1 rate"
  shows "\<exists>x. decodeAudioData h bytes ctx rate 1 =
               Inr \<lparr>numberOfChannels = 1, bufferLength = 1, sampleRate = rate,
                    channels = [[Num x]]\<rparr>
             \<and> \<bar>x - f\<bar> \<le> 1 / 32768"
proof -
  from assms(1,2) have "sint (word_of_int q :: int16) = q"
    by (rule sint_word_of_int_int16)
  then have s: "real_of_int (sint (word_of_int q :: int16)) = real_of_int q"
    by (simp only:)
  from assms(3) have err: "\<bar>real_of_int q / 32768 - f\<bar> \<le> 1 / 32768"
    by (simp add: abs_le_iff field_simps)
  from assms(4) have ev: "even (length bytes)"
    and raw: "int16Elements h bytes = [word_of_int q]"
    by (auto simp: Int16Array_def split: if_splits)
  from raw have len: "length bytes div 2 = 1"
    using length_int16Elements [of h bytes] by simp
  with assms(5) have sup: "supports ctx 1 (length bytes div 2 div 1) rate" by simp
  have "decodeAudioData h bytes ctx rate 1 =
               Inr \<lparr>numberOfChannels = 1, bufferLength = 1, sampleRate = rate,
                    channels = [[Num (real_of_int q / 32768)]]\<rparr>"
    using len s by (subst decodeAudioData_supported [OF ev sup]) (simp add: raw)
  with err show ?thesis by blast
qed

lemma sint_nth_int16Elements:
  assumes "k < length bytes div 2"
  shows "sint (int16Elements h bytes ! k) =
           (case h of
              LittleEndian \<Rightarrow> uint (bytes ! (2 * k)) + 256 * sint (bytes ! (2 * k + 1))
            | BigEndian \<Rightarrow> uint (bytes ! (2 * k + 1)) + 256 * sint (bytes ! (2 * k)))"
  using assms
  by (cases h)
    (simp_all add: nth_int16Elements int16FromBytes_BigEndian sint_int16FromBytes_LittleEndian)



section \<open>Properties of the decoder\<close>

text \<open>
  C1. Let \<open>rawSample\<close> be the 16-bit view of the input bytes in the byte order of the
  host, and let its length be divisible by the channel count. Whenever the audio
  context supports the requested buffer, the decoder returns a buffer with one array
  for each channel, each as long as the frame count, in which the value of channel
  \<open>c\<close> at frame \<open>i\<close> is \<open>rawSample[i * numChannels + c] / 32768\<close>: no value comes from
  another channel's samples. \<open>rawSample[k]\<close> is the signed value of the bytes \<open>2k\<close> and
  \<open>2k + 1\<close>, low byte first on a little-endian host and high byte first on a
  big-endian host.
\<close>

theorem decodeAudioData_deinterleaves:
  assumes "Int16Array h bytes = Inr rawSample"
    and "length rawSample mod numChannels = 0"
    and "supports ctx numChannels (length rawSample div numChannels) rate"
    and "c < numChannels"
    and "i < length rawSample div numChannels"
  shows "\<exists>buffer. decodeAudioData h bytes ctx rate numChannels = Inr buffer
           \<and> numberOfChannels buffer = numChannels
           \<and> length (channels buffer) = numChannels
           \<and> bufferLength buffer = length rawSample div numChannels
           \<and> length (channels buffer ! c) = length rawSample div numChannels
           \<and> channels buffer ! c ! i =
               Num (real_of_int (sint (rawSample ! (i * numChannels + c))) / 32768)
           \<and> sint (rawSample ! (i * numChannels + c)) =
               (case h of
                  LittleEndian \<Rightarrow>
                    uint (bytes ! (2 * (i * numChannels + c)))
                    + 256 * sint (bytes ! (2 * (i * numChannels + c) + 1))
                | BigEndian \<Rightarrow>
                    uint (bytes ! (2 * (i * numChannels + c) + 1))
                    + 256 * sint (bytes ! (2 * (i * numChannels + c))))"
proof -
  from assms(1) have ev: "even (length bytes)" and raw: "rawSample = int16Elements h bytes"
    by (auto simp: Int16Array_def split: if_splits)
  have len: "length rawSample = length bytes div 2"
    by (simp add: raw length_int16Elements)
  from assms(3) have sup: "supports ctx numChannels (length bytes div 2 div numChannels) rate"
    by (simp add: len)
  have k: "i * numChannels + c < length bytes div 2"
    using frame_index_in_range [OF assms(5) assms(4)] by (simp add: len)
  let ?F = "length bytes div 2 div numChannels"
  let ?buffer = "\<lparr>numberOfChannels = numChannels, bufferLength = ?F, sampleRate = rate,
      channels = map (\<lambda>c. map (\<lambda>i. Num (real_of_int (sint (int16Elements h bytes ! (i * numChannels + c))) / 32768))
                              [0..<?F]) [0..<numChannels]\<rparr>"
  have dec: "decodeAudioData h bytes ctx rate numChannels = Inr ?buffer"
    by (rule decodeAudioData_supported [OF ev sup])
  from assms(5) have i: "i < ?F" by (simp add: len)
  have "channels ?buffer ! c ! i =
          Num (real_of_int (sint (rawSample ! (i * numChannels + c))) / 32768)"
    using assms(4) i by (simp add: raw)
  moreover have "length (channels ?buffer ! c) = length rawSample div numChannels"
    using assms(4) by (simp add: len)
  moreover have "sint (rawSample ! (i * numChannels + c)) =
               (case h of
                  LittleEndian \<Rightarrow>
                    uint (bytes ! (2 * (i * numChannels + c)))
                    + 256 * sint (bytes ! (2 * (i * numChannels + c) + 1))
                | BigEndian \<Rightarrow>
                    uint (bytes ! (2 * (i * numChannels + c) + 1))
                    + 256 * sint (bytes ! (2 * (i * numChannels + c))))"
    unfolding raw by (rule sint_nth_int16Elements [OF k])
  ultimately show ?thesis
    using dec len by (intro exI [of _ ?buffer]) simp
qed

theorem decodeAudioData_deinterleaves_witness:
  "(\<exists>buffer. decodeAudioData LittleEndian [0, 0, 0, 64, 0, 128, 255, 127]
       \<lparr>maxChannels = 32, minSampleRate = 8000, maxSampleRate = 96000\<rparr> 24000 2 = Inr buffer
     \<and> channels buffer ! 1 ! 1 = Num (32767 / 32768))
   \<and> (\<exists>buffer. decodeAudioData BigEndian [0, 0, 0, 64, 0, 128, 255, 127]
       \<lparr>maxChannels = 32, minSampleRate = 8000, maxSampleRate = 96000\<rparr> 24000 2 = Inr buffer
     \<and> channels buffer ! 1 ! 1 = Num (- 129 / 32768))"
proof
  let ?ctx = "\<lparr>maxChannels = 32, minSampleRate = 8000, maxSampleRate = 96000\<rparr>"
  let ?raw = "[0, 16384, 32768, 32767] :: int16 list"
  have a: "Int16Array LittleEndian [0, 0, 0, 64, 0, 128, 255, 127] = Inr ?raw"
    by (simp add: Int16Array_def int16FromBytes_def)
  have b: "length ?raw mod 2 = 0" by simp
  have c: "supports ?ctx 2 (length ?raw div 2) 24000" by (simp add: supports_def)
  have d: "(1::nat) < 2" by simp
  have e: "1 < length ?raw div 2" by simp
  from decodeAudioData_deinterleaves [OF a b c d e]
  obtain buffer where
    "decodeAudioData LittleEndian [0, 0, 0, 64, 0, 128, 255, 127] ?ctx 24000 2 = Inr buffer"
    "channels buffer ! 1 ! 1 = Num (real_of_int (sint (?raw ! (1 * 2 + 1))) / 32768)"
    by blast
  then show "\<exists>buffer. decodeAudioData LittleEndian [0, 0, 0, 64, 0, 128, 255, 127] ?ctx 24000 2
                 = Inr buffer
     \<and> channels buffer ! 1 ! 1 = Num (32767 / 32768)"
    by simp
next
  let ?ctx = "\<lparr>maxChannels = 32, minSampleRate = 8000, maxSampleRate = 96000\<rparr>"
  let ?raw = "[0, 64, 128, 65407] :: int16 list"
  have a: "Int16Array BigEndian [0, 0, 0, 64, 0, 128, 255, 127] = Inr ?raw"
    by (simp add: Int16Array_def int16FromBytes_def)
  have b: "length ?raw mod 2 = 0" by simp
  have c: "supports ?ctx 2 (length ?raw div 2) 24000" by (simp add: supports_def)
  have d: "(1::nat) < 2" by simp
  have e: "1 < length ?raw div 2" by simp
  from decodeAudioData_deinterleaves [OF a b c d e]
  obtain buffer where
    "decodeAudioData BigEndian [0, 0, 0, 64, 0, 128, 255, 127] ?ctx 24000 2 = Inr buffer"
    "channels buffer ! 1 ! 1 = Num (real_of_int (sint (?raw ! (1 * 2 + 1))) / 32768)"
    by blast
  then show "\<exists>buffer. decodeAudioData BigEndian [0, 0, 0, 64, 0, 128, 255, 127] ?ctx 24000 2
                 = Inr buffer
     \<and> channels buffer ! 1 ! 1 = Num (- 129 / 32768)"
    by simp
qed

text \<open>
  Two channels and the bytes 1, 0, 2, 0 on a big-endian host: the claim C1 reads the
  bytes low byte first, which gives the samples 1 and 2 and so the value 2/32768 for
  channel 1 at frame 0; the decoder reads them in host order, as the samples 256 and
  512, and returns 512/32768 there.
\<close>

theorem decodeAudioData_big_endian_counterexample:
  "decodeAudioData BigEndian [1, 0, 2, 0]
     \<lparr>maxChannels = 32, minSampleRate = 8000, maxSampleRate = 96000\<rparr> 24000 2
   = Inr \<lparr>numberOfChannels = 2, bufferLength = 1, sampleRate = 24000,
          channels = [[Num (256 / 32768)], [Num (512 / 32768)]]\<rparr>
   \<and> Num (512 / 32768) \<noteq>
       Num (real_of_int (uint ([1, 0, 2, 0 :: uint8] ! (2 * (0 * 2 + 1)))
                         + 256 * sint ([1, 0, 2, 0 :: uint8] ! (2 * (0 * 2 + 1) + 1))) / 32768)"
  by (simp add: decodeAudioData_accepted int16FromBytes_def upt_rec)

text \<open>
  C2. An input of even byte length whose sample count is not a multiple of the channel
  count is truncated without an exception: whenever the audio context supports the
  requested buffer, the decoder returns a buffer whose frame count is
  \<open>\<lfloor>(byteLength / 2) / numChannels\<rfloor>\<close>, each channel holding the samples of the
  whole frames only, so that the samples of the last, incomplete frame are dropped. An
  input of odd byte length is not truncated: the \<^verbatim>\<open>Int16Array\<close> constructor raises
  a \<^verbatim>\<open>RangeError\<close>, and the decoder with it.
\<close>

theorem decodeAudioData_truncates:
  "(even (length bytes) \<and> supports ctx numChannels (length bytes div 2 div numChannels) rate \<longrightarrow>
      (\<exists>buffer. decodeAudioData h bytes ctx rate numChannels = Inr buffer
         \<and> bufferLength buffer = length bytes div 2 div numChannels
         \<and> length (channels buffer) = numChannels
         \<and> (\<forall>c<numChannels. channels buffer ! c =
               map (\<lambda>i. Num (real_of_int (sint (int16Elements h bytes ! (i * numChannels + c))) / 32768))
                   [0..<length bytes div 2 div numChannels])))
   \<and> (odd (length bytes) \<longrightarrow> decodeAudioData h bytes ctx rate numChannels = Inl RangeError)"
proof (intro conjI impI)
  assume "even (length bytes) \<and> supports ctx numChannels (length bytes div 2 div numChannels) rate"
  then have ev: "even (length bytes)"
    and sup: "supports ctx numChannels (length bytes div 2 div numChannels) rate"
    by simp_all
  show "\<exists>buffer. decodeAudioData h bytes ctx rate numChannels = Inr buffer
         \<and> bufferLength buffer = length bytes div 2 div numChannels
         \<and> length (channels buffer) = numChannels
         \<and> (\<forall>c<numChannels. channels buffer ! c =
               map (\<lambda>i. Num (real_of_int (sint (int16Elements h bytes ! (i * numChannels + c))) / 32768))
                   [0..<length bytes div 2 div numChannels])"
    by (simp add: decodeAudioData_supported [OF ev sup])
next
  assume "odd (length bytes)"
  then show "decodeAudioData h bytes ctx rate numChannels = Inl RangeError"
    by (simp add: decodeAudioData_def Int16Array_def even_iff_mod_2_eq_zero)
qed

theorem decodeAudioData_truncates_witness:
  "(\<exists>buffer. decodeAudioData LittleEndian [1, 0, 2, 0, 3, 0]
        \<lparr>maxChannels = 32, minSampleRate = 8000, maxSampleRate = 96000\<rparr> 24000 2 = Inr buffer
      \<and> bufferLength buffer = 1
      \<and> channels buffer ! 0 = [Num (1 / 32768)]
      \<and> channels buffer ! 1 = [Num (2 / 32768)])
   \<and> decodeAudioData LittleEndian [1, 0, 2, 0, 3]
        \<lparr>maxChannels = 32, minSampleRate = 8000, maxSampleRate = 96000\<rparr> 24000 2 = Inl RangeError"
proof
  let ?ctx = "\<lparr>maxChannels = 32, minSampleRate = 8000, maxSampleRate = 96000\<rparr>"
  let ?bytes = "[1, 0, 2, 0, 3, 0] :: uint8 list"
  have "even (length ?bytes) \<and> supports ?ctx 2 (length ?bytes div 2 div 2) 24000"
    by (simp add: supports_def)
  with decodeAudioData_truncates [of ?bytes ?ctx 2 24000 LittleEndian]
  obtain buffer where b: "decodeAudioData LittleEndian ?bytes ?ctx 24000 2 = Inr buffer"
    "bufferLength buffer = length ?bytes div 2 div 2"
    "length (channels buffer) = 2"
    "\<forall>c<2. channels buffer ! c =
       map (\<lambda>i. Num (real_of_int (sint (int16Elements LittleEndian ?bytes ! (i * 2 + c))) / 32768))
           [0..<length ?bytes div 2 div 2]"
    by blast
  from b(4) have "channels buffer ! 0 = [Num (1 / 32768)]" "channels buffer ! 1 = [Num (2 / 32768)]"
    by (simp_all add: int16FromBytes_def)
  with b(1,2) show "\<exists>buffer. decodeAudioData LittleEndian ?bytes ?ctx 24000 2 = Inr buffer
      \<and> bufferLength buffer = 1
      \<and> channels buffer ! 0 = [Num (1 / 32768)]
      \<and> channels buffer ! 1 = [Num (2 / 32768)]"
    by simp
next
  have "odd (length ([1, 0, 2, 0, 3] :: uint8 list))" by simp
  with decodeAudioData_truncates [of "[1, 0, 2, 0, 3]"
      "\<lparr>maxChannels = 32, minSampleRate = 8000, maxSampleRate = 96000\<rparr>" 2 24000 LittleEndian]
  show "decodeAudioData LittleEndian [1, 0, 2, 0, 3]
        \<lparr>maxChannels = 32, minSampleRate = 8000, maxSampleRate = 96000\<rparr> 24000 2 = Inl RangeError"
    by blast
qed

text \<open>
  Three bytes and one channel: the claim C2 promises one frame and no exception, the
  decoder raises the \<^verbatim>\<open>RangeError\<close> of the typed-array constructor.
\<close>

theorem decodeAudioData_odd_length_counterexample:
  "decodeAudioData LittleEndian [0, 0, 0]
     \<lparr>maxChannels = 32, minSampleRate = 8000, maxSampleRate = 96000\<rparr> 24000 1
   = Inl RangeError"
  by (simp add: decodeAudioData_def Int16Array_def)

text \<open>
  C3. For every input of even byte length the decoder reads consecutive pairs of bytes
  as signed 16-bit integers in the byte order of the host: on a little-endian host
  sample \<open>k\<close> is \<open>bytes[2k] + 256 * toSigned(bytes[2k + 1])\<close>, low byte first; on a
  big-endian host it is \<open>bytes[2k + 1] + 256 * toSigned(bytes[2k])\<close>.
\<close>

theorem Int16Array_host_order:
  assumes "even (length bytes)" and "k < length bytes div 2"
  shows "\<exists>dataInt16. Int16Array h bytes = Inr dataInt16
           \<and> length dataInt16 = length bytes div 2
           \<and> sint (dataInt16 ! k) =
               (case h of
                  LittleEndian \<Rightarrow> uint (bytes ! (2 * k)) + 256 * sint (bytes ! (2 * k + 1))
                | BigEndian \<Rightarrow> uint (bytes ! (2 * k + 1)) + 256 * sint (bytes ! (2 * k)))"
proof -
  have "Int16Array h bytes = Inr (int16Elements h bytes)"
    using assms(1) by (simp add: Int16Array_def)
  moreover have "sint (int16Elements h bytes ! k) =
               (case h of
                  LittleEndian \<Rightarrow> uint (bytes ! (2 * k)) + 256 * sint (bytes ! (2 * k + 1))
                | BigEndian \<Rightarrow> uint (bytes ! (2 * k + 1)) + 256 * sint (bytes ! (2 * k)))"
    using assms(2)
    by (cases h)
      (simp_all add: nth_int16Elements int16FromBytes_BigEndian sint_int16FromBytes_LittleEndian)
  ultimately show ?thesis
    by (simp add: length_int16Elements)
qed

theorem Int16Array_host_order_witness:
  "(\<exists>dataInt16. Int16Array LittleEndian [255, 127, 0, 128] = Inr dataInt16
      \<and> sint (dataInt16 ! 1) = - 32768)
   \<and> (\<exists>dataInt16. Int16Array BigEndian [255, 127, 0, 128] = Inr dataInt16
      \<and> sint (dataInt16 ! 1) = 128)"
proof -
  let ?bytes = "[255, 127, 0, 128] :: uint8 list"
  have a: "even (length ?bytes)" by simp
  have b: "1 < length ?bytes div 2" by simp
  from Int16Array_host_order [OF a b, of LittleEndian]
  obtain d1 where "Int16Array LittleEndian ?bytes = Inr d1"
    "sint (d1 ! 1) = uint (?bytes ! (2 * 1)) + 256 * sint (?bytes ! (2 * 1 + 1))"
    by auto
  moreover from Int16Array_host_order [OF a b, of BigEndian]
  obtain d2 where "Int16Array BigEndian ?bytes = Inr d2"
    "sint (d2 ! 1) = uint (?bytes ! (2 * 1 + 1)) + 256 * sint (?bytes ! (2 * 1))"
    by auto
  ultimately show ?thesis by simp
qed

text \<open>
  The bytes 1, 0 are the sample 1 on a little-endian host and the sample 256 on a
  big-endian one, and the decoded values differ accordingly: the result that C3 calls
  independent of the host's byte order is not.
\<close>

theorem Int16Array_host_order_counterexample:
  "Int16Array BigEndian [1, 0] = Inr [256]
   \<and> Int16Array LittleEndian [1, 0] = Inr [1]
   \<and> decodeAudioData BigEndian [1, 0]
        \<lparr>maxChannels = 32, minSampleRate = 8000, maxSampleRate = 96000\<rparr> 24000 1
      = Inr \<lparr>numberOfChannels = 1, bufferLength = 1, sampleRate = 24000,
             channels = [[Num (256 / 32768)]]\<rparr>
   \<and> decodeAudioData LittleEndian [1, 0]
        \<lparr>maxChannels = 32, minSampleRate = 8000, maxSampleRate = 96000\<rparr> 24000 1
      = Inr \<lparr>numberOfChannels = 1, bufferLength = 1, sampleRate = 24000,
             channels = [[Num (1 / 32768)]]\<rparr>"
  by (simp add: decodeAudioData_accepted Int16Array_def int16FromBytes_def)


text \<open>
  C4. The decoder divides each 16-bit sample by 32768, not by 32767: the least sample
  \<open>-32768\<close> becomes exactly \<open>-1\<close> and the greatest sample \<open>32767\<close> becomes
  \<open>32767 / 32768\<close>, which is not 1. For one channel and input bytes that hold the
  samples 0, 16384, -32768, 32767, the output is one channel of four frames with the
  values 0, 1/2, -1 and 32767/32768, whenever the audio context supports that buffer.
\<close>

theorem decodeAudioData_normalises:
  assumes "Int16Array h bytes = Inr [0, 16384, - 32768, 32767]"
    and "supports ctx 1 4 rate"
  shows "decodeAudioData h bytes ctx rate 1 =
           Inr \<lparr>numberOfChannels = 1, bufferLength = 4, sampleRate = rate,
                channels = [[Num 0, Num (1 / 2), Num (- 1), Num (32767 / 32768)]]\<rparr>
         \<and> sampleAt [s] 0 = Num (real_of_int (sint s) / 32768)
         \<and> sampleAt [- 32768] 0 = Num (- 1)
         \<and> sampleAt [32767] 0 = Num (32767 / 32768)
         \<and> sampleAt [32767] 0 \<noteq> Num 1"
proof -
  from assms(1) have ev: "even (length bytes)"
    and raw: "int16Elements h bytes = [0, 16384, - 32768, 32767]"
    by (auto simp: Int16Array_def split: if_splits)
  from raw have "length bytes div 2 = 4"
    using length_int16Elements [of h bytes] by simp
  with assms(2) have sup: "supports ctx 1 (length bytes div 2 div 1) rate" by simp
  have "[0..<4] = [0, 1, 2, 3 :: nat]" by (simp add: upt_rec)
  then have "decodeAudioData h bytes ctx rate 1 =
           Inr \<lparr>numberOfChannels = 1, bufferLength = 4, sampleRate = rate,
                channels = [[Num 0, Num (1 / 2), Num (- 1), Num (32767 / 32768)]]\<rparr>"
    using \<open>length bytes div 2 = 4\<close>
    by (subst decodeAudioData_supported [OF ev sup]) (simp add: raw)
  then show ?thesis by (simp add: sampleAt_def)
qed

theorem decodeAudioData_normalises_witness:
  "decodeAudioData LittleEndian [0, 0, 0, 64, 0, 128, 255, 127]
     \<lparr>maxChannels = 32, minSampleRate = 8000, maxSampleRate = 96000\<rparr> 24000 1 =
   Inr \<lparr>numberOfChannels = 1, bufferLength = 4, sampleRate = 24000,
        channels = [[Num 0, Num (1 / 2), Num (- 1), Num (32767 / 32768)]]\<rparr>"
proof -
  have a: "Int16Array LittleEndian [0, 0, 0, 64, 0, 128, 255, 127] = Inr [0, 16384, - 32768, 32767]"
    by (simp add: Int16Array_def int16FromBytes_def)
  have b: "supports \<lparr>maxChannels = 32, minSampleRate = 8000, maxSampleRate = 96000\<rparr> 1 4 24000"
    by (simp add: supports_def)
  from decodeAudioData_normalises [OF a b] show ?thesis by blast
qed

text \<open>
  C5. Whatever the input, every value in every channel of a buffer that the decoder
  returns is a number \<open>x\<close> with \<open>-1 \<le> x < 1\<close>.
\<close>

theorem decodeAudioData_range:
  assumes "decodeAudioData h bytes ctx rate numChannels = Inr buffer"
    and "channelData \<in> set (channels buffer)"
    and "v \<in> set channelData"
  shows "\<exists>x. v = Num x \<and> - 1 \<le> x \<and> x < 1"
proof -
  from assms(1) have "channels buffer =
      map (\<lambda>c. map (\<lambda>i. Num (real_of_int (sint (int16Elements h bytes ! (i * numChannels + c))) / 32768))
                    [0..<(length bytes div 2 div numChannels) mod 2 ^ 32])
          [0..<numChannels]"
    by (simp add: decodeAudioData_Inr_iff)
  with assms(2,3) obtain s :: int16 where v: "v = Num (real_of_int (sint s) / 32768)"
    by auto
  from sint_int16_range [of s]
  have "real_of_int (- 32768) \<le> real_of_int (sint s)" "real_of_int (sint s) < real_of_int 32768"
    by (simp_all only: of_int_le_iff of_int_less_iff)
  then have "- 1 \<le> real_of_int (sint s) / 32768" "real_of_int (sint s) / 32768 < 1"
    by simp_all
  with v show ?thesis by blast
qed

theorem decodeAudioData_range_witness:
  "decodeAudioData LittleEndian [0, 128, 255, 127]
     \<lparr>maxChannels = 32, minSampleRate = 8000, maxSampleRate = 96000\<rparr> 24000 1 =
   Inr \<lparr>numberOfChannels = 1, bufferLength = 2, sampleRate = 24000,
        channels = [[Num (- 1), Num (32767 / 32768)]]\<rparr>
   \<and> (\<exists>x. Num (32767 / 32768) = Num x \<and> - 1 \<le> x \<and> x < 1)"
proof -
  let ?buffer = "\<lparr>numberOfChannels = 1, bufferLength = 2, sampleRate = 24000,
        channels = [[Num (- 1), Num (32767 / 32768)]]\<rparr>"
  have a: "decodeAudioData LittleEndian [0, 128, 255, 127]
     \<lparr>maxChannels = 32, minSampleRate = 8000, maxSampleRate = 96000\<rparr> 24000 1 = Inr ?buffer"
    by (simp add: decodeAudioData_accepted int16FromBytes_def upt_rec)
  have b: "[Num (- 1), Num (32767 / 32768)] \<in> set (channels ?buffer)" by simp
  have c: "Num (32767 / 32768) \<in> set [Num (- 1), Num (32767 / 32768)]" by simp
  from a decodeAudioData_range [OF a b c] show ?thesis by blast
qed

text \<open>
  C6. Round trip: a float sample \<open>f\<close> with \<open>-1 \<le> f < 1\<close>, encoded to a 16-bit
  sample by \<open>encodeSample\<close> and decoded again as a one-channel, one-frame input,
  comes back as a value within \<open>1 / 32768\<close> of \<open>f\<close>.
\<close>

theorem encode_decode_roundtrip:
  assumes "- 1 \<le> f" and "f < 1"
    and "Int16Array h bytes = Inr [encodeSample f]"
    and "supports ctx 1 1 rate"
  shows "\<exists>x. decodeAudioData h bytes ctx rate 1 =
               Inr \<lparr>numberOfChannels = 1, bufferLength = 1, sampleRate = rate,
                    channels = [[Num x]]\<rparr>
             \<and> \<bar>x - f\<bar> \<le> 1 / 32768"
proof -
  let ?k = "\<lfloor>f * 32768\<rfloor>"
  from assms(1,2) have "- 32768 \<le> f * 32768" "f * 32768 < 32768" by simp_all
  then have k: "- 32768 \<le> ?k" "?k < 32768"
    by (simp_all add: le_floor_iff floor_less_iff)
  have "real_of_int ?k \<le> f * 32768" "f * 32768 < real_of_int ?k + 1"
    by linarith+
  then have err: "\<bar>real_of_int ?k - f * 32768\<bar> \<le> 1"
    by linarith
  from assms(3) have "Int16Array h bytes = Inr [word_of_int ?k]"
    by (simp add: encodeSample_def)
  from decode_quantised_sample [OF k err this assms(4)] show ?thesis .
qed

theorem encode_decode_roundtrip_witness:
  "\<exists>x. decodeAudioData LittleEndian [170, 42]
          \<lparr>maxChannels = 32, minSampleRate = 8000, maxSampleRate = 96000\<rparr> 24000 1 =
        Inr \<lparr>numberOfChannels = 1, bufferLength = 1, sampleRate = 24000, channels = [[Num x]]\<rparr>
      \<and> \<bar>x - 1 / 3\<bar> \<le> 1 / 32768"
proof -
  have "\<lfloor>32768 / 3 :: real\<rfloor> = 10922" by linarith
  then have a: "Int16Array LittleEndian [170, 42] = Inr [encodeSample (1 / 3)]"
    by (simp add: Int16Array_def int16FromBytes_def encodeSample_def)
  have b: "supports \<lparr>maxChannels = 32, minSampleRate = 8000, maxSampleRate = 96000\<rparr> 1 1 24000"
    by (simp add: supports_def)
  have c: "- 1 \<le> (1 / 3 :: real)" "(1 / 3 :: real) < 1" by simp_all
  from encode_decode_roundtrip [OF c a b] show ?thesis .
qed

text \<open>
  C7. The sample rate is metadata. Two runs of the decoder that differ only in the
  sample rate, both rates supported by the audio context or both not, either both fail
  or both return a buffer; the two buffers then have the same channel count, frame count
  and channel data, and each carries the rate it was given.
\<close>

theorem sampleRate_is_metadata:
  assumes "(minSampleRate ctx \<le> rate1 \<and> rate1 \<le> maxSampleRate ctx)
           = (minSampleRate ctx \<le> rate2 \<and> rate2 \<le> maxSampleRate ctx)"
  shows "rel_sum (\<lambda>e1 e2. True)
           (\<lambda>buffer1 buffer2. channels buffer1 = channels buffer2
              \<and> numberOfChannels buffer1 = numberOfChannels buffer2
              \<and> bufferLength buffer1 = bufferLength buffer2
              \<and> sampleRate buffer1 = rate1 \<and> sampleRate buffer2 = rate2)
           (decodeAudioData h bytes ctx rate1 numChannels)
           (decodeAudioData h bytes ctx rate2 numChannels)"
proof (cases "decodeAudioData h bytes ctx rate1 numChannels")
  case (Inl e1)
  have "\<nexists>buffer2. decodeAudioData h bytes ctx rate2 numChannels = Inr buffer2"
  proof
    assume "\<exists>buffer2. decodeAudioData h bytes ctx rate2 numChannels = Inr buffer2"
    with assms have "\<exists>buffer1. decodeAudioData h bytes ctx rate1 numChannels = Inr buffer1"
      by (simp add: decodeAudioData_Inr_iff)
    with Inl show False by simp
  qed
  then obtain e2 where "decodeAudioData h bytes ctx rate2 numChannels = Inl e2"
    by (cases "decodeAudioData h bytes ctx rate2 numChannels") auto
  with Inl show ?thesis by simp
next
  case (Inr buffer1)
  with assms have "\<exists>buffer2. decodeAudioData h bytes ctx rate2 numChannels = Inr buffer2"
    by (simp add: decodeAudioData_Inr_iff)
  then obtain buffer2 where b2: "decodeAudioData h bytes ctx rate2 numChannels = Inr buffer2" ..
  from Inr b2 have "channels buffer1 = channels buffer2"
    "numberOfChannels buffer1 = numberOfChannels buffer2"
    "bufferLength buffer1 = bufferLength buffer2"
    "sampleRate buffer1 = rate1" "sampleRate buffer2 = rate2"
    by (auto simp: decodeAudioData_Inr_iff)
  with Inr b2 show ?thesis by simp
qed

theorem sampleRate_is_metadata_witness:
  "\<exists>buffer1 buffer2.
      decodeAudioData LittleEndian [0, 64]
        \<lparr>maxChannels = 32, minSampleRate = 8000, maxSampleRate = 96000\<rparr> 24000 1 = Inr buffer1
    \<and> decodeAudioData LittleEndian [0, 64]
        \<lparr>maxChannels = 32, minSampleRate = 8000, maxSampleRate = 96000\<rparr> 48000 1 = Inr buffer2
    \<and> channels buffer1 = channels buffer2
    \<and> sampleRate buffer1 = 24000 \<and> sampleRate buffer2 = 48000"
proof -
  let ?ctx = "\<lparr>maxChannels = 32, minSampleRate = 8000, maxSampleRate = 96000\<rparr>"
  have a: "(minSampleRate ?ctx \<le> 24000 \<and> 24000 \<le> maxSampleRate ?ctx)
           = (minSampleRate ?ctx \<le> 48000 \<and> 48000 \<le> maxSampleRate ?ctx)"
    by simp
  have "\<exists>b. decodeAudioData LittleEndian [0, 64] ?ctx 24000 1 = Inr b"
    by (simp add: decodeAudioData_accepted)
  then obtain b1 where b1: "decodeAudioData LittleEndian [0, 64] ?ctx 24000 1 = Inr b1" ..
  with sampleRate_is_metadata [OF a, of LittleEndian "[0, 64]" 1]
  obtain b2 where "decodeAudioData LittleEndian [0, 64] ?ctx 48000 1 = Inr b2"
    "channels b1 = channels b2" "sampleRate b1 = 24000" "sampleRate b2 = 48000"
    by (cases "decodeAudioData LittleEndian [0, 64] ?ctx 48000 1") auto
  with b1 show ?thesis by blast
qed


section \<open>Properties of the service module and the application\<close>

text \<open>
  C8. When the topic is neither blank nor a trigger of the gate, the text analysis
  succeeds and the audio context is built, \<^verbatim>\<open>handleLeap\<close> ends in the status
  \<^verbatim>\<open>complete\<close> with the manifest kept, whatever the two media tasks do: a task
  that fails leaves \<^verbatim>\<open>null\<close> in its field, a task that succeeds leaves its
  value, and the error message is the one of a partial failure exactly when one of
  them failed. Neither failure discards the manifest or ends in the status
  \<^verbatim>\<open>error\<close>.
\<close>

theorem handleLeap_partial_failure:
  assumes "trim (topic app) \<noteq> []"
    and "\<not> stringIncludes (toLowerCase (topic app)) ''aether''"
    and "\<not> stringIncludes (toLowerCase (topic app)) ''event''"
    and "generateManifest w (topic app) = Inr m"
    and "newAudioContext w = Inr audioCtx"
  shows "fst (handleLeap w app) =
           app\<lparr>state :=
             \<lparr>status = Complete,
              manifest = Some m,
              imageData = (case generateLeapImage w (imagePrompt m) of
                             Inl e \<Rightarrow> None | Inr v \<Rightarrow> Some v),
              audioBuffer = (case generateLeapAudio w (audioScript m) audioCtx of
                               Inl e \<Rightarrow> None | Inr v \<Rightarrow> Some v),
              error = (if isl (generateLeapImage w (imagePrompt m))
                          \<or> isl (generateLeapAudio w (audioScript m) audioCtx)
                       then Some ''Partial system failure. Some media elements could not be synthesized.''
                       else None)\<rparr>\<rparr>"
  using assms
  by (cases "generateLeapImage w (imagePrompt m)";
      cases "generateLeapAudio w (audioScript m) audioCtx")
     (simp_all add: handleLeap_def allSettled_def Let_def)

theorem handleLeap_partial_failure_witness:
  "fst (handleLeap demoWorld
          \<lparr>topic = ''Tokyo'', showGate = False,
           state = \<lparr>status = Idle, manifest = None, imageData = None, audioBuffer = None,
                    error = None\<rparr>\<rparr>) =
   \<lparr>topic = ''Tokyo'', showGate = False,
    state = \<lparr>status = Complete, manifest = Some demoManifest, imageData = None,
             audioBuffer = None,
             error = Some ''Partial system failure. Some media elements could not be synthesized.''\<rparr>\<rparr>"
proof -
  let ?app = "\<lparr>topic = ''Tokyo'', showGate = False,
           state = \<lparr>status = Idle, manifest = None, imageData = None, audioBuffer = None,
                    error = None\<rparr>\<rparr>"
  let ?ctx = "\<lparr>maxChannels = 32, minSampleRate = 8000, maxSampleRate = 96000\<rparr>"
  have a: "trim (topic ?app) \<noteq> []" by code_simp
  have b: "\<not> stringIncludes (toLowerCase (topic ?app)) ''aether''" by code_simp
  have c: "\<not> stringIncludes (toLowerCase (topic ?app)) ''event''" by code_simp
  have d: "generateManifest demoWorld (topic ?app) = Inr demoManifest"
    by (simp add: generateManifest_def demoWorld_def)
  have e: "newAudioContext demoWorld = Inr ?ctx"
    by (simp add: demoWorld_def)
  have img: "generateLeapImage demoWorld (imagePrompt demoManifest) = Inl (Error ''quota'')"
    by (simp add: generateLeapImage_def demoWorld_def)
  have aud: "generateLeapAudio demoWorld (audioScript demoManifest) ?ctx = Inl (Error ''No audio generated'')"
    by (simp add: generateLeapAudio_def generateLeapAudioRun_def demoWorld_def demoManifest_def
        firstInlineData_def)
  from handleLeap_partial_failure [OF a b c d e] show ?thesis
    by (simp add: img aud)
qed



text \<open>
  C10. For a topic that is not blank and whose lower-case form contains \<^verbatim>\<open>aether\<close>
  or \<^verbatim>\<open>event\<close>, \<^verbatim>\<open>handleLeap\<close> opens the gate, clears the topic and returns: it
  makes no call to the service module and leaves the analysis state as it was.
\<close>

theorem handleLeap_gate_trigger:
  assumes "trim (topic app) \<noteq> []"
    and "stringIncludes (toLowerCase (topic app)) ''aether''
         \<or> stringIncludes (toLowerCase (topic app)) ''event''"
  shows "handleLeap w app = (app\<lparr>showGate := True, topic := []\<rparr>, [])
         \<and> showGate (fst (handleLeap w app))
         \<and> topic (fst (handleLeap w app)) = []
         \<and> state (fst (handleLeap w app)) = state app
         \<and> snd (handleLeap w app) = []"
  using assms by (simp add: handleLeap_def)

theorem handleLeap_gate_trigger_witness:
  "handleLeap demoWorld
     \<lparr>topic = ''Event horizon'', showGate = False,
      state = \<lparr>status = Idle, manifest = None, imageData = None, audioBuffer = None,
               error = None\<rparr>\<rparr> =
   (\<lparr>topic = [], showGate = True,
     state = \<lparr>status = Idle, manifest = None, imageData = None, audioBuffer = None,
              error = None\<rparr>\<rparr>, [])"
proof -
  let ?app = "\<lparr>topic = ''Event horizon'', showGate = False,
      state = \<lparr>status = Idle, manifest = None, imageData = None, audioBuffer = None,
               error = None\<rparr>\<rparr>"
  have a: "trim (topic ?app) \<noteq> []" by code_simp
  have "stringIncludes (toLowerCase (topic ?app)) ''event''" by code_simp
  then have b: "stringIncludes (toLowerCase (topic ?app)) ''aether''
         \<or> stringIncludes (toLowerCase (topic ?app)) ''event''" ..
  from handleLeap_gate_trigger [OF a b, of demoWorld] show ?thesis by simp
qed


end
